theory Spec2Isabelle
  imports Main
begin

section \<open>Strings\<close>

text \<open>
  Python strings are modelled as lists of 8-bit characters. The string methods below are
  the ones \<^verbatim>\<open>get_data_bulk.py\<close> calls. \<open>upper\<close> and \<open>strip\<close> are modelled on the
  ASCII range: a character outside \<open>a\<close>..\<open>z\<close> is left alone by \<open>upper\<close>, and the
  whitespace characters are the ASCII ones that Python's \<^verbatim>\<open>str.isspace\<close> accepts
  (tab, line feed, vertical tab, form feed, carriage return, the four separators
  \<open>0x1C\<close>..\<open>0x1F\<close> and the space).
\<close>

definition upper_char :: "char \<Rightarrow> char" where
  "upper_char c =
     (case map_of (zip ''abcdefghijklmnopqrstuvwxyz'' ''ABCDEFGHIJKLMNOPQRSTUVWXYZ'') c of
        None \<Rightarrow> c
      | Some u \<Rightarrow> u)"

definition upper :: "string \<Rightarrow> string" where
  "upper s = map upper_char s"

definition isspace :: "char \<Rightarrow> bool" where
  "isspace c = (c \<in> set [CHR 0x09, CHR 0x0A, CHR 0x0B, CHR 0x0C, CHR 0x0D,
                          CHR 0x1C, CHR 0x1D, CHR 0x1E, CHR 0x1F, CHR 0x20])"

definition strip :: "string \<Rightarrow> string" where
  "strip s = rev (dropWhile isspace (rev (dropWhile isspace s)))"

definition endswith :: "string \<Rightarrow> string \<Rightarrow> bool" where
  "endswith s suf = (length suf \<le> length s \<and> drop (length s - length suf) s = suf)"

definition startswith :: "string \<Rightarrow> string \<Rightarrow> bool" where
  "startswith s pre = (take (length pre) s = pre)"

text \<open>\<^verbatim>\<open>sep.join(xs)\<close>\<close>

fun join :: "string \<Rightarrow> string list \<Rightarrow> string" where
  "join sep [] = []"
| "join sep [x] = x"
| "join sep (x # y # ys) = x @ sep @ join sep (y # ys)"

text \<open>
  \<^verbatim>\<open>s.replace(old, new)\<close>: every occurrence of \<open>old\<close>, found from the left and without
  overlap, becomes \<open>new\<close>. With an empty \<open>old\<close> Python puts \<open>new\<close> before every
  character and at the end.
\<close>

function py_replace :: "string \<Rightarrow> string \<Rightarrow> string \<Rightarrow> string" where
  "py_replace old new s =
     (if old = [] then new @ concat (map (\<lambda>c. c # new) s)
      else if s = [] then []
      else if startswith s old then new @ py_replace old new (drop (length old) s)
      else hd s # py_replace old new (tl s))"
  by pat_completeness auto
termination
  by (relation "measure (\<lambda>(old, new, s). length s)") auto

declare py_replace.simps [simp del]

text \<open>\<^verbatim>\<open>s.split(sep)\<close> for a separator of one character: the pieces between the separators.\<close>

fun split_acc :: "char \<Rightarrow> string \<Rightarrow> string \<Rightarrow> string list" where
  "split_acc sep cur [] = [cur]"
| "split_acc sep cur (c # cs) =
     (if c = sep then cur # split_acc sep [] cs else split_acc sep (cur @ [c]) cs)"

definition split :: "string \<Rightarrow> char \<Rightarrow> string list" where
  "split s sep = split_acc sep [] s"

text \<open>\<^verbatim>\<open>str(n)\<close> for a non-negative integer, as the f-strings of the source format it.\<close>

function str_of_nat :: "nat \<Rightarrow> string" where
  "str_of_nat n =
     (if n < 10 then [''0123456789'' ! n]
      else str_of_nat (n div 10) @ [''0123456789'' ! (n mod 10)])"
  by pat_completeness auto
termination
  by (relation "measure id") auto

declare str_of_nat.simps [simp del]

section \<open>The element tree\<close>

text \<open>
  What \<^verbatim>\<open>xml.etree.ElementTree\<close> gives for a parsed document: every element has a tag
  (with the namespace in braces in front of the local name), the text before its first
  child (\<open>None\<close> when there is none), the tail text after its closing tag, and its
  children in document order. The selector for the text is called \<open>elem_text\<close>.
\<close>

datatype element =
  Element (tag: string) (elem_text: "string option") (tail: "string option")
          (children: "element list")

text \<open>\<^verbatim>\<open>root.iter()\<close>: the element itself, then all its descendants, in document order.\<close>

fun iter :: "element \<Rightarrow> element list" where
  "iter (Element t x y cs) = Element t x y cs # concat (map iter cs)"

section \<open>Text extraction\<close>

definition ignore_sections :: "string list" where
  "ignore_sections =
     [''actionDescription'', ''toc'', ''designator'', ''label'', ''referenceItem'', ''num'',
      ''citableAs'', ''approvedDate'', ''publisher'', ''creator'', ''format'', ''language'',
      ''rights'', ''congress'', ''docNumber'', ''ref'', ''committee'', ''type'', ''language'',
      ''format'', ''page'', ''processedBy'', ''processedDate'', ''publicPrivate'',
      ''endMarker'']"

definition namespace_prefixes :: "string list" where
  "namespace_prefixes =
     [''{http://schemas.gpo.gov/xml/uslm}'',
      ''{http://purl.org/dc/elements/1.1/}'',
      ''{http://purl.org/dc/terms/}'']"

text \<open>The two nested loops that fill the set \<^verbatim>\<open>ignore_sections_prefixed\<close>.\<close>

definition ignore_sections_prefixed :: "string set" where
  "ignore_sections_prefixed =
     fold (\<lambda>prefix acc. fold (\<lambda>section acc'. insert (prefix @ section) acc')
                              ignore_sections acc)
          namespace_prefixes {}"

text \<open>
  The loop over \<^verbatim>\<open>root.iter()\<close> that fills \<^verbatim>\<open>inner_texts\<close>: an element of the ignore
  set is passed over, so is one whose text is \<open>None\<close>, empty or blank; the text of any
  other element is appended. The tail is never read.
\<close>

fun collect_texts :: "element list \<Rightarrow> string list \<Rightarrow> string list" where
  "collect_texts [] inner_texts = inner_texts"
| "collect_texts (e # es) inner_texts =
     (if tag e \<in> ignore_sections_prefixed then collect_texts es inner_texts
      else (case elem_text e of
              None \<Rightarrow> collect_texts es inner_texts
            | Some t \<Rightarrow>
                if t = [] then collect_texts es inner_texts
                else if strip t = [] then collect_texts es inner_texts
                else collect_texts es (inner_texts @ [t])))"

definition inner_texts_of :: "element \<Rightarrow> string list" where
  "inner_texts_of root = collect_texts (iter root) []"

text \<open>
  The search for the marker, \<^verbatim>\<open>for i, text in enumerate(inner_texts)\<close>, which stops at
  the first entry whose upper-cased value is the marker.
\<close>

fun find_legislative_history :: "string list \<Rightarrow> nat \<Rightarrow> nat option" where
  "find_legislative_history [] i = None"
| "find_legislative_history (t # ts) i =
     (if upper t = ''LEGISLATIVE HISTORY'' then Some i
      else find_legislative_history ts (Suc i))"

text \<open>
  \<^verbatim>\<open>if legislative_history_index: inner_texts = inner_texts[:legislative_history_index]\<close>.
  The test is Python's truth value of the index: \<open>None\<close> and \<open>0\<close> are both false.
\<close>

definition truncate_texts :: "string list \<Rightarrow> string list" where
  "truncate_texts inner_texts =
     (case find_legislative_history inner_texts 0 of
        None \<Rightarrow> inner_texts
      | Some legislative_history_index \<Rightarrow>
          if legislative_history_index \<noteq> 0 then take legislative_history_index inner_texts
          else inner_texts)"

definition extract_text :: "element \<Rightarrow> string" where
  "extract_text root = join [CHR 0x0A] (truncate_texts (inner_texts_of root))"

section \<open>The files, the network and the log\<close>

text \<open>
  The state the script works on: the files (a map from path to content; directories are
  not modelled, \<^verbatim>\<open>os.makedirs\<close> always makes them before a write), the URLs given to
  \<^verbatim>\<open>call_api\<close> so far, and the log.
\<close>

datatype level = INFO | ERROR

record state =
  files :: "string \<rightharpoonup> string"
  calls :: "string list"
  logged :: "(level \<times> string) list"

text \<open>
  An exception the script raises or lets through, and how a function ends. A function
  of the script returns its outcome together with the state it leaves: what was written
  before an exception stays written.
\<close>

datatype error =
    Exception string
  | IndexError
  | FileNotFoundError string
  | LibraryError string

datatype outcome = Returned | Raised error

record response =
  status_code :: nat
  response_text :: string

record law_info =
  name :: string
  link :: string

text \<open>
  The libraries the script calls are parameters of the model:
  \<^item> \<open>requests_get\<close>, for \<^verbatim>\<open>requests.get\<close>: given the URLs asked before and a URL, a
    response or a transport error;
  \<^item> \<open>json_load\<close>, for \<^verbatim>\<open>json.load(f)["files"]\<close>: the entries of a manifest, each with a
    \<open>name\<close> and a \<open>link\<close>, or an error;
  \<^item> \<open>ET_parse\<close>, for \<^verbatim>\<open>ET.parse\<close>: the root element, or the message of the
    \<^verbatim>\<open>ParseError\<close>;
  \<^item> \<open>listdir\<close>, for \<^verbatim>\<open>os.listdir\<close>: the names in a directory, in the order the
    system gives them.
  The waiting that the decorators of \<^verbatim>\<open>call_api\<close> add is not part of the model: there
  is no clock in it.
\<close>

type_synonym requests_get_fn = "string list \<Rightarrow> string \<Rightarrow> error + response"
type_synonym json_load_fn = "string \<Rightarrow> error + law_info list"
type_synonym ET_parse_fn = "string \<Rightarrow> string + element"

definition logger_info :: "string \<Rightarrow> state \<Rightarrow> state" where
  "logger_info msg st = st\<lparr>logged := logged st @ [(INFO, msg)]\<rparr>"

definition logger_error :: "string \<Rightarrow> state \<Rightarrow> state" where
  "logger_error msg st = st\<lparr>logged := logged st @ [(ERROR, msg)]\<rparr>"

definition call_api :: "requests_get_fn \<Rightarrow> string \<Rightarrow> state \<Rightarrow> (error + response) \<times> state" where
  "call_api requests_get url st =
     (requests_get (calls st) url, st\<lparr>calls := calls st @ [url]\<rparr>)"


definition bulk_data_dir :: string where
  "bulk_data_dir = ''data/raw/bulk/''"

definition individual_law_data_dir :: string where
  "individual_law_data_dir = ''data/raw/individual/''"

section \<open>Stage 1: the manifests\<close>


definition check_if_raw_data_exists :: "nat \<Rightarrow> state \<Rightarrow> bool" where
  "check_if_raw_data_exists congress st =
     (files st (bulk_data_dir @ ''plaw_'' @ str_of_nat congress @ ''.json'') \<noteq> None)"



section \<open>Stage 2: the individual laws\<close>

text \<open>The body of the loop \<^verbatim>\<open>for law_info in bulk_data\<close>, for one entry.\<close>

definition download_law :: "requests_get_fn \<Rightarrow> law_info \<Rightarrow> state \<Rightarrow> outcome \<times> state" where
  "download_law requests_get law_info st =
     (if files st (individual_law_data_dir @ name law_info) \<noteq> None
      then (Returned, logger_info (''Skipping '' @ name law_info @ '', already exists'') st)
      else
        (let xml_url = link law_info in
         if \<not> endswith xml_url ''.xml''
         then (Returned, logger_info (''Skipping '' @ name law_info @ '', not an xml file'') st)
         else
           (let st1 = logger_info (''Downloading '' @ name law_info @ '' from '' @ xml_url) st
            in case call_api requests_get xml_url st1 of
                 (Inl e, st2) \<Rightarrow> (Raised e, st2)
               | (Inr response, st2) \<Rightarrow>
                   if status_code response = 200
                   then (Returned,
                         st2\<lparr>files := (files st2)(individual_law_data_dir @ name law_info
                                                    \<mapsto> response_text response)\<rparr>)
                   else (Raised (Exception (''Response code ''
                                   @ str_of_nat (status_code response)
                                   @ '' for '' @ xml_url)), st2))))"

fun download_laws :: "requests_get_fn \<Rightarrow> law_info list \<Rightarrow> state \<Rightarrow> outcome \<times> state" where
  "download_laws requests_get [] st = (Returned, st)"
| "download_laws requests_get (law_info # bulk_data) st =
     (case download_law requests_get law_info st of
        (Returned, st') \<Rightarrow> download_laws requests_get bulk_data st'
      | (Raised e, st') \<Rightarrow> (Raised e, st'))"

text \<open>
  \<^verbatim>\<open>bulk_plaw_file.split("_")[1].split(".")[0]\<close>: an \<^verbatim>\<open>IndexError\<close> when the name has no
  underscore.
\<close>

definition congress_of :: "string \<Rightarrow> string option" where
  "congress_of bulk_plaw_file =
     (case split bulk_plaw_file (CHR ''_'') of
        _ # second # _ \<Rightarrow> (case split second (CHR ''.'') of c # _ \<Rightarrow> Some c | [] \<Rightarrow> Some [])
      | _ \<Rightarrow> None)"

definition process_bulk_plaw_file ::
  "json_load_fn \<Rightarrow> requests_get_fn \<Rightarrow> string \<Rightarrow> state \<Rightarrow> outcome \<times> state" where
  "process_bulk_plaw_file json_load requests_get bulk_plaw_file st =
     (case congress_of bulk_plaw_file of
        None \<Rightarrow> (Raised IndexError, st)
      | Some congress \<Rightarrow>
          (let st1 = logger_info (''Processing bulk_plaw_file '' @ bulk_plaw_file
                                  @ '' for congress '' @ congress) st
           in case files st1 (bulk_data_dir @ bulk_plaw_file) of
                None \<Rightarrow> (Raised (FileNotFoundError (bulk_data_dir @ bulk_plaw_file)), st1)
              | Some content \<Rightarrow>
                  (case json_load content of
                     Inl e \<Rightarrow> (Raised e, st1)
                   | Inr bulk_data \<Rightarrow> download_laws requests_get bulk_data st1)))"

fun process_bulk_plaw_files ::
  "json_load_fn \<Rightarrow> requests_get_fn \<Rightarrow> string list \<Rightarrow> state \<Rightarrow> outcome \<times> state" where
  "process_bulk_plaw_files json_load requests_get [] st = (Returned, st)"
| "process_bulk_plaw_files json_load requests_get (bulk_plaw_file # bulk_plaw_files) st =
     (case process_bulk_plaw_file json_load requests_get bulk_plaw_file st of
        (Returned, st') \<Rightarrow> process_bulk_plaw_files json_load requests_get bulk_plaw_files st'
      | (Raised e, st') \<Rightarrow> (Raised e, st'))"


section \<open>Stage 3: the text of each law\<close>

definition processed_path :: "string \<Rightarrow> string" where
  "processed_path individual_law_file =
     py_replace ''.xml'' ''.txt'' (''data/processed/'' @ individual_law_file)"

definition process_individual_law_file :: "ET_parse_fn \<Rightarrow> string \<Rightarrow> state \<Rightarrow> outcome \<times> state" where
  "process_individual_law_file ET_parse individual_law_file st =
     (case files st (individual_law_data_dir @ individual_law_file) of
        None \<Rightarrow> (Raised (FileNotFoundError (individual_law_data_dir @ individual_law_file)), st)
      | Some content \<Rightarrow>
          (case ET_parse content of
             Inl e \<Rightarrow>
               (let st1 = logger_error (''Error parsing '' @ individual_law_file @ '': '' @ e
                                         @ ''. '' @ [CHR 0x0A] @ '' deleting file'') st
                in (Returned,
                    st1\<lparr>files := (files st1)(individual_law_data_dir @ individual_law_file
                                               := None)\<rparr>))
           | Inr root \<Rightarrow>
               (Returned,
                st\<lparr>files := (files st)(processed_path individual_law_file
                                         \<mapsto> extract_text root)\<rparr>)))"

fun process_individual_law_files :: "ET_parse_fn \<Rightarrow> string list \<Rightarrow> state \<Rightarrow> outcome \<times> state" where
  "process_individual_law_files ET_parse [] st = (Returned, st)"
| "process_individual_law_files ET_parse (individual_law_file # individual_law_files) st =
     (case process_individual_law_file ET_parse individual_law_file st of
        (Returned, st') \<Rightarrow> process_individual_law_files ET_parse individual_law_files st'
      | (Raised e, st') \<Rightarrow> (Raised e, st'))"


section \<open>The whole run\<close>


section \<open>Notions used to state the properties\<close>




subsection \<open>A small law, for the worked examples\<close>



text \<open>The individual cache with one document in it, and a parser that reads it as \<open>root\<close>.\<close>

definition one_law_state :: "string \<Rightarrow> state" where
  "one_law_state individual_law_file =
     \<lparr>files = [individual_law_data_dir @ individual_law_file \<mapsto> ''<pLaw>...</pLaw>''],
      calls = [], logged = []\<rparr>"


subsection \<open>Runs that differ only in what they log\<close>

definition agree :: "outcome \<times> state \<Rightarrow> outcome \<times> state \<Rightarrow> bool" where
  "agree r r' =
     (fst r = fst r' \<and> files (snd r) = files (snd r') \<and> calls (snd r) = calls (snd r'))"

subsection \<open>A server and a manifest, for the worked examples\<close>

definition always_status :: "nat \<Rightarrow> string \<Rightarrow> requests_get_fn" where
  "always_status code body history url = Inr \<lparr>status_code = code, response_text = body\<rparr>"

definition manifest_115 :: "law_info list" where
  "manifest_115 =
     [\<lparr>name = ''plaw115-1.xml'',
       link = ''https://www.govinfo.gov/bulkdata/PLAW/115/public/plaw115-1.xml''\<rparr>,
      \<lparr>name = ''report.pdf'',
       link = ''https://www.govinfo.gov/bulkdata/PLAW/115/public/report.pdf''\<rparr>]"

definition empty_state :: state where
  "empty_state = \<lparr>files = Map.empty, calls = [], logged = []\<rparr>"

subsection \<open>File names in which \<open>.xml\<close> is the extension and nothing else\<close>


subsection \<open>Two manifests with an entry of the same name\<close>

definition two_manifests_state :: state where
  "two_manifests_state =
     \<lparr>files = [bulk_data_dir @ ''plaw_113.json'' \<mapsto> ''first'',
               bulk_data_dir @ ''plaw_114.json'' \<mapsto> ''second''],
      calls = [], logged = []\<rparr>"

definition two_manifests :: "string \<Rightarrow> string \<Rightarrow> json_load_fn" where
  "two_manifests link1 link2 content =
     (if content = ''first'' then Inr [\<lparr>name = ''x.xml'', link = link1\<rparr>]
      else if content = ''second'' then Inr [\<lparr>name = ''x.xml'', link = link2\<rparr>]
      else Inl (LibraryError ''JSONDecodeError''))"

subsection \<open>What a completed run leaves behind\<close>



subsection \<open>A whole run, for the worked examples\<close>





section \<open>Properties of the strings and of the extraction\<close>













subsection \<open>The worked examples, evaluated\<close>





section \<open>The extraction: claims C1, C2 and C8\<close>







section \<open>The fetch of the laws and the malformed documents: claims C4 and C5\<close>

lemma py_replace_xml_other:
  "c \<noteq> CHR ''.'' \<Longrightarrow> py_replace ''.xml'' new (c # s) = c # py_replace ''.xml'' new s"
  by (subst py_replace.simps) (simp add: startswith_def)

lemma processed_path_prefix:
  "processed_path f = ''data/processed/'' @ py_replace ''.xml'' ''.txt'' f"
  by (simp add: processed_path_def py_replace_xml_other)

lemma processed_path_neq_individual [simp]:
  "processed_path f \<noteq> individual_law_data_dir @ g"
  by (simp add: processed_path_prefix individual_law_data_dir_def)

lemma download_law_agree:
  assumes "files st = files st'" "calls st = calls st'"
  shows "agree (download_law rq e st) (download_law rq e st')"
  using assms
  by (auto simp: agree_def download_law_def call_api_def logger_info_def Let_def
      split: sum.splits)

lemma download_laws_agree:
  assumes "files st = files st'" "calls st = calls st'"
  shows "agree (download_laws rq es st) (download_laws rq es st')"
  using assms
proof (induction es arbitrary: st st')
  case Nil
  then show ?case by (simp add: agree_def)
next
  case (Cons e es)
  obtain o1 s1 where r1: "download_law rq e st = (o1, s1)" by (cases "download_law rq e st")
  obtain o2 s2 where r2: "download_law rq e st' = (o2, s2)" by (cases "download_law rq e st'")
  from download_law_agree [OF Cons.prems, of rq e] r1 r2
  have eq: "o1 = o2" "files s1 = files s2" "calls s1 = calls s2" by (simp_all add: agree_def)
  show ?case
  proof (cases o1)
    case Returned
    with eq r1 r2 Cons.IH [of s1 s2] show ?thesis by simp
  next
    case (Raised err)
    with eq r1 r2 show ?thesis by (cases o2) (simp_all add: agree_def)
  qed
qed

lemma download_law_skip:
  assumes "\<not> endswith (link e) ''.xml''"
  shows "download_law rq e st
         = (Returned,
            logger_info (''Skipping '' @ name e @
                         (if files st (individual_law_data_dir @ name e) \<noteq> None
                          then '', already exists'' else '', not an xml file'')) st)"
  using assms by (simp add: download_law_def Let_def)

lemma download_laws_append:
  "download_laws rq (xs @ ys) st =
     (case download_laws rq xs st of
        (Returned, st') \<Rightarrow> download_laws rq ys st'
      | (Raised e, st') \<Rightarrow> (Raised e, st'))"
  by (induction xs arbitrary: st) (auto split: prod.splits outcome.splits)

text \<open>
  Claim C4. For a manifest entry whose \<open>link\<close> does not end in \<open>.xml\<close>, the step for
  that entry returns with one more line in the log and nothing else changed: no call of
  \<open>call_api\<close>, no file made. The other entries are not affected: the manifest with the
  entry and the manifest without it end the same way, with the same files and the same
  calls.
\<close>

theorem non_xml_entry_is_skipped:
  assumes "\<not> endswith (link law_info) ''.xml''"
  shows "download_law requests_get law_info st
           = (Returned,
              logger_info (''Skipping '' @ name law_info @
                           (if files st (individual_law_data_dir @ name law_info) \<noteq> None
                            then '', already exists'' else '', not an xml file'')) st)
       \<and> files (snd (download_law requests_get law_info st)) = files st
       \<and> calls (snd (download_law requests_get law_info st)) = calls st
       \<and> agree (download_laws requests_get (before @ law_info # after) st)
               (download_laws requests_get (before @ after) st)"
proof -
  note skip = download_law_skip [OF assms, of requests_get]
  have "agree (download_laws requests_get (before @ law_info # after) st)
              (download_laws requests_get (before @ after) st)"
  proof (cases "download_laws requests_get before st")
    case (Pair o1 s1)
    show ?thesis
    proof (cases o1)
      case Returned
      have "agree (download_laws requests_get after (snd (download_law requests_get law_info s1)))
                  (download_laws requests_get after s1)"
        by (rule download_laws_agree) (simp_all add: skip logger_info_def)
      with Pair Returned skip [of s1] show ?thesis by (simp add: download_laws_append)
    next
      case (Raised err)
      with Pair show ?thesis by (simp add: download_laws_append agree_def)
    qed
  qed
  with skip [of st] show ?thesis by (simp add: logger_info_def)
qed

text \<open>
  The manifest of congress 115 with a law and a report in PDF: the law is fetched and
  cached, the report is neither fetched nor cached.
\<close>

theorem non_xml_entry_is_skipped_witness:
  "calls (snd (download_laws (always_status 200 ''<pLaw>...</pLaw>'') manifest_115 empty_state))
     = [''https://www.govinfo.gov/bulkdata/PLAW/115/public/plaw115-1.xml'']
   \<and> files (snd (download_laws (always_status 200 ''<pLaw>...</pLaw>'') manifest_115 empty_state))
       (individual_law_data_dir @ ''report.pdf'') = None
   \<and> files (snd (download_laws (always_status 200 ''<pLaw>...</pLaw>'') manifest_115 empty_state))
       (individual_law_data_dir @ ''plaw115-1.xml'') = Some ''<pLaw>...</pLaw>''"
  using non_xml_entry_is_skipped
          [of "manifest_115 ! 1" "always_status 200 ''<pLaw>...</pLaw>''" empty_state
              "[manifest_115 ! 0]" "[]"]
  by (simp add: manifest_115_def empty_state_def always_status_def endswith_def agree_def
      download_law_def call_api_def logger_info_def individual_law_data_dir_def Let_def)

text \<open>
  Claim C5. For a cached document that does not parse, the extractor logs the error,
  returns without raising, and leaves the files as they were but for the document, which
  it deletes: no text is written. The loop goes on with the next document.
\<close>

theorem malformed_xml_is_deleted:
  assumes "files st (individual_law_data_dir @ f) = Some content"
    and "ET_parse content = Inl e"
  shows "process_individual_law_file ET_parse f st
           = (Returned,
              (logger_error (''Error parsing '' @ f @ '': '' @ e @ ''. '' @ [CHR 0x0A]
                             @ '' deleting file'') st)
              \<lparr>files := (files st)(individual_law_data_dir @ f := None)\<rparr>)
       \<and> files (snd (process_individual_law_file ET_parse f st))
           = (files st)(individual_law_data_dir @ f := None)
       \<and> calls (snd (process_individual_law_file ET_parse f st)) = calls st
       \<and> process_individual_law_files ET_parse (f # rest) st
           = process_individual_law_files ET_parse rest
               (snd (process_individual_law_file ET_parse f st))"
  using assms
  by (simp add: process_individual_law_file_def logger_error_def Let_def)

text \<open>A cache with one document that does not parse: after the loop it is empty.\<close>

theorem malformed_xml_is_deleted_witness:
  "process_individual_law_files (\<lambda>content. Inl ''no element found'') [''a.xml''] (one_law_state ''a.xml'')
   = (Returned, \<lparr>files = Map.empty, calls = [],
                 logged = [(ERROR, ''Error parsing a.xml: no element found. '' @ [CHR 0x0A] @ '' deleting file'')]\<rparr>)"
  using malformed_xml_is_deleted
          [of "one_law_state ''a.xml''" "''a.xml''" "''<pLaw>...</pLaw>''"
              "\<lambda>content. Inl ''no element found''" "''no element found''" "[]"]
  by (auto simp: one_law_state_def process_individual_law_file_def logger_error_def)

section \<open>The status of a response: claim C6\<close>










section \<open>The name of the text file: claim C9\<close>






section \<open>The cache of the laws is keyed by name: claim C10\<close>

lemma download_law_files_mono:
  "files st p \<noteq> None \<Longrightarrow> files (snd (download_law rq e st)) p \<noteq> None"
  by (auto simp: download_law_def call_api_def logger_info_def Let_def split: sum.splits)

lemma download_laws_files_mono:
  "files st p \<noteq> None \<Longrightarrow> files (snd (download_laws rq es st)) p \<noteq> None"
proof (induction es arbitrary: st)
  case Nil
  then show ?case by simp
next
  case (Cons e es)
  from download_law_files_mono [OF Cons.prems, of rq e] Cons.IH
  show ?case
    by (cases "download_law rq e st") (auto split: outcome.splits)
qed

lemma download_law_cached:
  assumes "download_law rq e st = (Returned, st')" "endswith (link e) ''.xml''"
  shows "files st' (individual_law_data_dir @ name e) \<noteq> None"
  using assms
  by (auto simp: download_law_def call_api_def logger_info_def Let_def
      split: sum.splits if_splits)

lemma download_laws_cached:
  assumes "download_laws rq es st = (Returned, st')" "e \<in> set es" "endswith (link e) ''.xml''"
  shows "files st' (individual_law_data_dir @ name e) \<noteq> None"
  using assms
proof (induction es arbitrary: st)
  case Nil
  then show ?case by simp
next
  case (Cons x xs)
  from Cons.prems(1) obtain s1 where
    x: "download_law rq x st = (Returned, s1)" and xs: "download_laws rq xs s1 = (Returned, st')"
    by (cases "download_law rq x st") (auto split: outcome.splits)
  show ?case
  proof (cases "e = x")
    case True
    with x Cons.prems(3) have "files s1 (individual_law_data_dir @ name e) \<noteq> None"
      by (simp add: download_law_cached)
    from download_laws_files_mono [OF this, of rq xs] xs show ?thesis by simp
  next
    case False
    with Cons.prems(2) have "e \<in> set xs" by simp
    with Cons.IH xs Cons.prems(3) show ?thesis by blast
  qed
qed

lemma download_law_exists:
  assumes "files st (individual_law_data_dir @ name e) \<noteq> None"
  shows "download_law rq e st
         = (Returned, logger_info (''Skipping '' @ name e @ '', already exists'') st)"
  using assms by (simp add: download_law_def)

lemma download_laws_skip_cached:
  assumes "files st (individual_law_data_dir @ name e) \<noteq> None"
  shows "agree (download_laws rq (before @ e # after) st) (download_laws rq (before @ after) st)"
proof (cases "download_laws rq before st")
  case (Pair o1 s1)
  show ?thesis
  proof (cases o1)
    case Returned
    from download_laws_files_mono [OF assms, of rq before] Pair
    have "files s1 (individual_law_data_dir @ name e) \<noteq> None" by simp
    then have skip: "download_law rq e s1
                     = (Returned, logger_info (''Skipping '' @ name e @ '', already exists'') s1)"
      by (rule download_law_exists)
    have "agree (download_laws rq after (logger_info (''Skipping '' @ name e @ '', already exists'') s1))
                (download_laws rq after s1)"
      by (rule download_laws_agree) (simp_all add: logger_info_def)
    with Pair Returned skip show ?thesis by (simp add: download_laws_append)
  next
    case (Raised err)
    with Pair show ?thesis by (simp add: download_laws_append agree_def)
  qed
qed

lemma process_bulk_plaw_file_congress:
  assumes "congress_of f1 = Some c1" "congress_of f2 = Some c2"
    and "files st (bulk_data_dir @ f1) = Some content"
    and "files st (bulk_data_dir @ f2) = Some content"
  shows "agree (process_bulk_plaw_file jl rq f1 st) (process_bulk_plaw_file jl rq f2 st)"
proof (cases "jl content")
  case (Inl err)
  with assms show ?thesis
    by (simp add: process_bulk_plaw_file_def logger_info_def agree_def)
next
  case (Inr bulk_data)
  have "agree (download_laws rq bulk_data
                 (logger_info (''Processing bulk_plaw_file '' @ f1 @ '' for congress '' @ c1) st))
              (download_laws rq bulk_data
                 (logger_info (''Processing bulk_plaw_file '' @ f2 @ '' for congress '' @ c2) st))"
    by (rule download_laws_agree) (simp_all add: logger_info_def)
  with Inr assms show ?thesis
    by (simp add: process_bulk_plaw_file_def logger_info_def)
qed

text \<open>
  Claim C10, as the code has it. The congress decoded from the name of a manifest file
  goes to the log only: a manifest file of another name with the same content ends the
  same way, with the same files and the same calls. The cache path of an entry is made
  of its \<open>name\<close> alone. When a manifest with an entry whose \<open>link\<close> ends in \<open>.xml\<close> has
  been processed, the file of that name is in the cache, and an entry of the same name
  in a manifest processed after it is skipped as already there: no call, no file, and
  the rest of that manifest goes as if the entry were not in it.
\<close>

theorem cache_is_keyed_by_name:
  assumes "congress_of f1 = Some c1" "congress_of f2 = Some c2"
    and "files st (bulk_data_dir @ f1) = Some content1"
    and "json_load content1 = Inr (before1 @ e1 # after1)"
    and "endswith (link e1) ''.xml''"
    and "process_bulk_plaw_file json_load requests_get f1 st = (Returned, st1)"
    and "name e2 = name e1"
  shows "(files st (bulk_data_dir @ f2) = Some content1 \<longrightarrow>
            agree (process_bulk_plaw_file json_load requests_get f2 st) (Returned, st1))
       \<and> files st1 (individual_law_data_dir @ name e1) \<noteq> None
       \<and> download_law requests_get e2 st1
           = (Returned, logger_info (''Skipping '' @ name e2 @ '', already exists'') st1)
       \<and> agree (download_laws requests_get (before2 @ e2 # after2) st1)
               (download_laws requests_get (before2 @ after2) st1)"
proof -
  from assms(1,3,4,6) have dl:
    "download_laws requests_get (before1 @ e1 # after1)
       (logger_info (''Processing bulk_plaw_file '' @ f1 @ '' for congress '' @ c1) st)
     = (Returned, st1)"
    by (simp add: process_bulk_plaw_file_def logger_info_def)
  have "e1 \<in> set (before1 @ e1 # after1)" by simp
  from download_laws_cached [OF dl this assms(5)]
  have cached: "files st1 (individual_law_data_dir @ name e1) \<noteq> None" .
  then have cached2: "files st1 (individual_law_data_dir @ name e2) \<noteq> None"
    using assms(7) by simp
  have "agree (process_bulk_plaw_file json_load requests_get f2 st) (Returned, st1)"
    if "files st (bulk_data_dir @ f2) = Some content1"
    using process_bulk_plaw_file_congress [OF assms(2,1) that assms(3), of json_load requests_get]
      assms(6) by simp
  with cached download_law_exists [OF cached2] download_laws_skip_cached [OF cached2]
  show ?thesis by simp
qed

text \<open>
  Two manifests, of congress 113 and 114, each with an entry \<open>x.xml\<close>: the one call made
  is for the link of the first.
\<close>

theorem cache_is_keyed_by_name_witness:
  "calls (snd (process_bulk_plaw_files
                 (two_manifests ''https://www.govinfo.gov/113/x.xml''
                                ''https://www.govinfo.gov/114/x.xml'')
                 (always_status 200 ''<pLaw>...</pLaw>'')
                 [''plaw_113.json'', ''plaw_114.json''] two_manifests_state))
   = [''https://www.govinfo.gov/113/x.xml'']"
  using cache_is_keyed_by_name
          [of "''plaw_113.json''" "''113''" "''plaw_114.json''" "''114''" two_manifests_state
              "''first''"
              "two_manifests ''https://www.govinfo.gov/113/x.xml''
                             ''https://www.govinfo.gov/114/x.xml''"
              "[]" "\<lparr>name = ''x.xml'', link = ''https://www.govinfo.gov/113/x.xml''\<rparr>" "[]"
              "always_status 200 ''<pLaw>...</pLaw>''"
              "snd (process_bulk_plaw_file
                      (two_manifests ''https://www.govinfo.gov/113/x.xml''
                                     ''https://www.govinfo.gov/114/x.xml'')
                      (always_status 200 ''<pLaw>...</pLaw>'') ''plaw_113.json'' two_manifests_state)"
              "\<lparr>name = ''x.xml'', link = ''https://www.govinfo.gov/114/x.xml''\<rparr>" "[]" "[]"]
  by (simp add: congress_of_def split_def two_manifests_state_def two_manifests_def
      always_status_def endswith_def process_bulk_plaw_file_def download_law_def call_api_def
      logger_info_def bulk_data_dir_def individual_law_data_dir_def Let_def)

text \<open>
  Claim C10, as the specification has it, fails when the entry of the first manifest has
  a link that is not XML: that entry is skipped and nothing is cached under its name, so
  the entry of the same name in the second manifest is fetched.
\<close>

theorem same_name_counterexample:
  "calls (snd (process_bulk_plaw_file
                 (two_manifests ''https://www.govinfo.gov/113/x.pdf''
                                ''https://www.govinfo.gov/114/x.xml'')
                 (always_status 200 ''<pLaw>...</pLaw>'') ''plaw_113.json'' two_manifests_state))
   = []
   \<and> process_bulk_plaw_files
       (two_manifests ''https://www.govinfo.gov/113/x.pdf''
                      ''https://www.govinfo.gov/114/x.xml'')
       (always_status 200 ''<pLaw>...</pLaw>'')
       [''plaw_113.json'', ''plaw_114.json''] two_manifests_state
     = (Returned,
        \<lparr>files = [bulk_data_dir @ ''plaw_113.json'' \<mapsto> ''first'',
                  bulk_data_dir @ ''plaw_114.json'' \<mapsto> ''second'',
                  individual_law_data_dir @ ''x.xml'' \<mapsto> ''<pLaw>...</pLaw>''],
         calls = [''https://www.govinfo.gov/114/x.xml''],
         logged = [(INFO, ''Processing bulk_plaw_file plaw_113.json for congress 113''),
                   (INFO, ''Skipping x.xml, not an xml file''),
                   (INFO, ''Processing bulk_plaw_file plaw_114.json for congress 114''),
                   (INFO, ''Downloading x.xml from https://www.govinfo.gov/114/x.xml'')]\<rparr>)"
  by (simp add: congress_of_def split_def two_manifests_state_def two_manifests_def
      always_status_def endswith_def process_bulk_plaw_file_def download_law_def call_api_def
      logger_info_def bulk_data_dir_def individual_law_data_dir_def Let_def)

section \<open>Running the pipeline twice: claim C7\<close>

lemma check_exists_logger_info [simp]:
  "check_if_raw_data_exists c (logger_info msg st) = check_if_raw_data_exists c st"
  by (simp add: check_if_raw_data_exists_def logger_info_def)

lemma files_logger_info [simp]: "files (logger_info msg st) = files st"
  by (simp add: logger_info_def)

lemma calls_logger_info [simp]: "calls (logger_info msg st) = calls st"
  by (simp add: logger_info_def)






lemma bulk_neq_individual [simp]: "bulk_data_dir @ f \<noteq> individual_law_data_dir @ n"
  by (simp add: bulk_data_dir_def individual_law_data_dir_def)

lemma processed_path_neq_bulk [simp]: "processed_path f \<noteq> bulk_data_dir @ g"
  by (simp add: processed_path_prefix bulk_data_dir_def)












lemma individual_neq_processed_path [simp]: "individual_law_data_dir @ g \<noteq> processed_path f"
  using processed_path_neq_individual [of f g] by (simp only: eq_commute not_False_eq_True)

lemma bulk_neq_processed_path [simp]: "bulk_data_dir @ g \<noteq> processed_path f"
  using processed_path_neq_bulk [of f g] by (simp only: eq_commute not_False_eq_True)





subsection \<open>The worked runs\<close>

lemma files_logger_error [simp]: "files (logger_error msg st) = files st"
  by (simp add: logger_error_def)

lemma calls_logger_error [simp]: "calls (logger_error msg st) = calls st"
  by (simp add: logger_error_def)

lemma upd_logger_info [simp]:
  "(logger_info msg st)\<lparr>files := f\<rparr> = logger_info msg (st\<lparr>files := f\<rparr>)"
  "(logger_info msg st)\<lparr>calls := c\<rparr> = logger_info msg (st\<lparr>calls := c\<rparr>)"
  by (simp_all add: logger_info_def)





end
